theory Spec2Isabelle
  imports Main "HOL-Library.Word" "HOL-Library.Signed_Division"
begin

unbundle bit_operations_syntax

section \<open>A best-fit heap allocator (bf-alloc.c)\<close>

text \<open>
  The allocator keeps its block headers inside the heap region itself and reaches them by
  pointer arithmetic, so the embedding is a byte-addressed store: memory is a function
  from 64-bit addresses to bytes, and the fields of \<open>header_s\<close> are read and written at
  their offsets in the LP64 layout that the source's own comment relies on ("the header
  is 32 bytes"): \<open>next\<close> at offset 0, \<open>prev\<close> at 8, \<open>size\<close> at 16, the one-byte
  \<open>allocated\<close> at 24, little-endian. Pointers, \<open>intptr_t\<close> and \<open>size_t\<close> are
  64-bit words; \<open>intptr_t\<close> is compared and reduced as a signed value.
\<close>

subsection \<open>Memory and the header layout\<close>

type_synonym addr = "64 word"
type_synonym size_t = "64 word"
type_synonym byte = "8 word"
type_synonym memory = "addr \<Rightarrow> byte"

definition byte_at :: "64 word \<Rightarrow> nat \<Rightarrow> byte" where
  "byte_at v k = ucast (drop_bit (8 * k) v)"

fun word_of_bytes :: "byte list \<Rightarrow> 64 word" where
  "word_of_bytes [] = 0"
| "word_of_bytes (b # bs) = ucast b OR push_bit 8 (word_of_bytes bs)"

text \<open>Reading and writing an 8-byte little-endian value at an address.\<close>

definition load64 :: "memory \<Rightarrow> addr \<Rightarrow> 64 word" where
  "load64 m a = word_of_bytes [m a, m (a + 1), m (a + 2), m (a + 3),
                               m (a + 4), m (a + 5), m (a + 6), m (a + 7)]"

definition store64 :: "memory \<Rightarrow> addr \<Rightarrow> 64 word \<Rightarrow> memory" where
  "store64 m a v = (\<lambda>x. if x - a < 8 then byte_at v (unat (x - a)) else m x)"

text \<open>\<open>sizeof(header_s)\<close>: two pointers, a \<open>size_t\<close>, a \<open>bool\<close>, padded to 32.\<close>

definition sizeof_header :: "64 word" where
  "sizeof_header = 32"

definition hdr_next :: "memory \<Rightarrow> addr \<Rightarrow> addr" where
  "hdr_next m h = load64 m h"

definition hdr_prev :: "memory \<Rightarrow> addr \<Rightarrow> addr" where
  "hdr_prev m h = load64 m (h + 8)"

definition hdr_size :: "memory \<Rightarrow> addr \<Rightarrow> size_t" where
  "hdr_size m h = load64 m (h + 16)"

definition hdr_allocated :: "memory \<Rightarrow> addr \<Rightarrow> bool" where
  "hdr_allocated m h = (m (h + 24) \<noteq> 0)"

definition set_next :: "memory \<Rightarrow> addr \<Rightarrow> addr \<Rightarrow> memory" where
  "set_next m h v = store64 m h v"

definition set_prev :: "memory \<Rightarrow> addr \<Rightarrow> addr \<Rightarrow> memory" where
  "set_prev m h v = store64 m (h + 8) v"

definition set_size :: "memory \<Rightarrow> addr \<Rightarrow> size_t \<Rightarrow> memory" where
  "set_size m h v = store64 m (h + 16) v"

definition set_allocated :: "memory \<Rightarrow> addr \<Rightarrow> bool \<Rightarrow> memory" where
  "set_allocated m h b = m(h + 24 := (if b then 1 else 0))"


definition memcpy :: "memory \<Rightarrow> addr \<Rightarrow> addr \<Rightarrow> size_t \<Rightarrow> memory" where
  "memcpy m dst src n = (\<lambda>x. if x - dst < n then m (src + (x - dst)) else m x)"

subsection \<open>Macros\<close>

definition HEAP_SIZE :: "64 word" where
  "HEAP_SIZE = 2 * 1024 * 1024 * 1024"

definition HEADER_TO_BLOCK :: "addr \<Rightarrow> addr" where
  "HEADER_TO_BLOCK hp = hp + sizeof_header"

definition BLOCK_TO_HEADER :: "addr \<Rightarrow> addr" where
  "BLOCK_TO_HEADER bp = bp - sizeof_header"

text \<open>\<open>MAP_FAILED\<close> is \<open>(void * ) -1\<close>.\<close>

definition MAP_FAILED :: addr where
  "MAP_FAILED = - 1"

text \<open>The \<open>%\<close> of C on \<open>intptr_t\<close>: the remainder of the division that truncates
  towards zero, on the signed values.\<close>

definition c_rem :: "64 word \<Rightarrow> 64 word \<Rightarrow> 64 word" where
  "c_rem a b = word_of_int (sint a smod sint b)"

subsection \<open>Globals and errors\<close>

record state =
  free_addr :: "64 word"
  start_addr :: "64 word"
  end_addr :: "64 word"
  free_list_head :: addr
  allocated_list_head :: addr
  mem :: memory

text \<open>
  Modelled from the spec: the \<open>ERROR\<close> macro comes from \<open>safeio.h\<close>, which is not
  among the sources. The spec's fatal-error channel "accepts a human-readable message and
  an optional numeric (address) payload; terminates the process". A call of \<open>ERROR\<close> is
  therefore the end of the operation, returned as a value of this type; the constructor
  records which of the three calls it was and its address payload. (\<open>DEBUG\<close>, of the same
  header, only logs and is left out.)
\<close>

datatype error =
    MmapFailed
  | AllocatedOnFreeList addr
  | DoubleFree addr
  | SegFault addr

text \<open>
  \<open>SegFault\<close> is not a call of \<open>ERROR\<close>. The only memory that the program has is the
  region that \<open>init\<close> maps: \<open>HEAP_SIZE\<close> bytes from \<open>start_addr\<close>, readable and
  writable. A store to an address outside that region is not a store to memory of the
  program; on an unmapped page it raises the signal \<open>SIGSEGV\<close> and the process ends
  there. \<open>in_heap s x n\<close> says that the \<open>n\<close> bytes from address \<open>x\<close> lie inside the
  region. The stores of the bump path, whose addresses \<open>malloc\<close> computes from the
  cursor, are tested with it, and the first one that leaves the region ends the call with
  \<open>SegFault\<close> and the address of the field. The other operations reach memory through
  pointers that they are given (by the caller, or by the \<open>next\<close> and \<open>prev\<close> fields of
  the lists); they are modelled on the memory as a whole, which has every address.
\<close>

definition in_heap :: "state \<Rightarrow> addr \<Rightarrow> nat \<Rightarrow> bool" where
  "in_heap s x n = (unat (x - start_addr s) + n \<le> unat HEAP_SIZE)"

text \<open>The state of the process before the first call: every global is zero.\<close>

definition initial_state :: "memory \<Rightarrow> state" where
  "initial_state m =
     \<lparr>free_addr = 0, start_addr = 0, end_addr = 0,
      free_list_head = 0, allocated_list_head = 0, mem = m\<rparr>"

subsection \<open>\<open>init\<close>\<close>

text \<open>The address that \<open>mmap\<close> returns is the parameter \<open>heap\<close>.\<close>

definition init :: "addr \<Rightarrow> state \<Rightarrow> error + state" where
  "init heap s =
     (if start_addr s = 0 then
        (if heap = MAP_FAILED then Inl MmapFailed
         else Inr (s\<lparr>start_addr := heap, end_addr := heap + HEAP_SIZE, free_addr := heap\<rparr>))
      else Inr s)"

subsection \<open>\<open>malloc\<close>\<close>

text \<open>One test of the loop body: does \<open>current\<close> replace \<open>best\<close>?\<close>

definition better :: "memory \<Rightarrow> size_t \<Rightarrow> addr \<Rightarrow> addr \<Rightarrow> addr" where
  "better m sz current best =
     (if (best = 0 \<and> sz \<le> hdr_size m current) \<or>
         (best \<noteq> 0 \<and> sz \<le> hdr_size m current \<and> hdr_size m current < hdr_size m best)
      then current else best)"

text \<open>The search loop. It follows \<open>next\<close> pointers until \<open>NULL\<close>, so on a cyclic
  chain it may never return: the result \<open>None\<close> is that case.\<close>

partial_function (option) search :: "memory \<Rightarrow> size_t \<Rightarrow> addr \<Rightarrow> addr \<Rightarrow> (error + addr) option" where
  "search m sz current best =
     (if current = 0 then Some (Inr best)
      else if hdr_allocated m current then Some (Inl (AllocatedOnFreeList current))
      else if better m sz current best \<noteq> 0 \<and> hdr_size m (better m sz current best) = sz
        then Some (Inr (better m sz current best))
      else search m sz (hdr_next m current) (better m sz current best))"

text \<open>The branch that reuses the free block \<open>best\<close>.\<close>

definition reuse :: "state \<Rightarrow> addr \<Rightarrow> state \<times> addr" where
  "reuse s best =
     (let s1 = (if hdr_prev (mem s) best = 0
                then s\<lparr>free_list_head := hdr_next (mem s) best\<rparr>
                else s\<lparr>mem := set_next (mem s) (hdr_prev (mem s) best) (hdr_next (mem s) best)\<rparr>);
          s2 = (if hdr_next (mem s1) best \<noteq> 0
                then s1\<lparr>mem := set_prev (mem s1) (hdr_next (mem s1) best) (hdr_prev (mem s1) best)\<rparr>
                else s1);
          s3 = s2\<lparr>mem := set_next (mem s2) best (allocated_list_head s2)\<rparr>;
          s4 = s3\<lparr>allocated_list_head := best\<rparr>;
          s5 = s4\<lparr>mem := set_prev (mem s4) best 0\<rparr>;
          s6 = (if hdr_next (mem s5) best \<noteq> 0
                then s5\<lparr>mem := set_prev (mem s5) (hdr_next (mem s5) best) best\<rparr>
                else s5);
          s7 = s6\<lparr>mem := set_allocated (mem s6) best True\<rparr>
      in (s7, HEADER_TO_BLOCK best))"

text \<open>The branch that carves a new block at the bump cursor. Each store of a header
  field is preceded by the test that its bytes lie in the region.\<close>

definition align_up :: "64 word \<Rightarrow> 64 word" where
  "align_up a = a + (16 - c_rem a 16)"

definition bump :: "state \<Rightarrow> size_t \<Rightarrow> error + state \<times> addr" where
  "bump s sz =
     (let s1 = s\<lparr>free_addr := align_up (free_addr s)\<rparr>;
          header_ptr = free_addr s1;
          new_block_ptr = HEADER_TO_BLOCK header_ptr
      in
      if \<not> in_heap s1 header_ptr 8 then Inl (SegFault header_ptr)
      else
        let s2 = s1\<lparr>mem := set_next (mem s1) header_ptr (allocated_list_head s1)\<rparr>;
            s3 = s2\<lparr>allocated_list_head := header_ptr\<rparr>
        in
        if \<not> in_heap s3 (header_ptr + 8) 8 then Inl (SegFault (header_ptr + 8))
        else
          let s4 = s3\<lparr>mem := set_prev (mem s3) header_ptr 0\<rparr>
          in
          if hdr_next (mem s4) header_ptr \<noteq> 0 \<and>
             \<not> in_heap s4 (hdr_next (mem s4) header_ptr + 8) 8
          then Inl (SegFault (hdr_next (mem s4) header_ptr + 8))
          else
            let s5 = (if hdr_next (mem s4) header_ptr \<noteq> 0
                      then s4\<lparr>mem := set_prev (mem s4) (hdr_next (mem s4) header_ptr) header_ptr\<rparr>
                      else s4)
            in
            if \<not> in_heap s5 (header_ptr + 16) 8 then Inl (SegFault (header_ptr + 16))
            else
              let s6 = s5\<lparr>mem := set_size (mem s5) header_ptr sz\<rparr>
              in
              if \<not> in_heap s6 (header_ptr + 24) 1 then Inl (SegFault (header_ptr + 24))
              else
                let s7 = s6\<lparr>mem := set_allocated (mem s6) header_ptr True\<rparr>;
                    new_free_addr = new_block_ptr + sz
                in
                Inr (if word_sless (end_addr s7) new_free_addr then (s7, 0)
                     else (s7\<lparr>free_addr := new_free_addr\<rparr>, new_block_ptr)))"

definition malloc :: "addr \<Rightarrow> state \<Rightarrow> size_t \<Rightarrow> (error + state \<times> addr) option" where
  "malloc heap s0 sz =
     (case init heap s0 of
        Inl e \<Rightarrow> Some (Inl e)
      | Inr s \<Rightarrow>
          if sz = 0 then Some (Inr (s, 0))
          else (case search (mem s) sz (free_list_head s) 0 of
                  None \<Rightarrow> None
                | Some (Inl e) \<Rightarrow> Some (Inl e)
                | Some (Inr best) \<Rightarrow>
                    if best \<noteq> 0 then Some (Inr (reuse s best)) else Some (bump s sz)))"

subsection \<open>\<open>free\<close>\<close>

definition free :: "state \<Rightarrow> addr \<Rightarrow> error + state" where
  "free s ptr =
     (if ptr = 0 then Inr s
      else
        let header_ptr = BLOCK_TO_HEADER ptr in
        if \<not> hdr_allocated (mem s) header_ptr then Inl (DoubleFree header_ptr)
        else
          let s1 = (if hdr_next (mem s) header_ptr \<noteq> 0
                    then s\<lparr>mem := set_prev (mem s) (hdr_next (mem s) header_ptr)
                                     (hdr_prev (mem s) header_ptr)\<rparr>
                    else s);
              s2 = (if hdr_prev (mem s1) header_ptr \<noteq> 0
                    then s1\<lparr>mem := set_next (mem s1) (hdr_prev (mem s1) header_ptr)
                                      (hdr_next (mem s1) header_ptr)\<rparr>
                    else s1\<lparr>allocated_list_head := hdr_next (mem s1) header_ptr\<rparr>);
              s3 = s2\<lparr>mem := set_next (mem s2) header_ptr (free_list_head s2)\<rparr>;
              s4 = s3\<lparr>free_list_head := header_ptr\<rparr>;
              s5 = s4\<lparr>mem := set_prev (mem s4) header_ptr 0\<rparr>;
              s6 = (if hdr_next (mem s5) header_ptr \<noteq> 0
                    then s5\<lparr>mem := set_prev (mem s5) (hdr_next (mem s5) header_ptr) header_ptr\<rparr>
                    else s5);
              s7 = s6\<lparr>mem := set_allocated (mem s6) header_ptr False\<rparr>
          in Inr s7)"

subsection \<open>\<open>calloc\<close> and \<open>realloc\<close>\<close>


definition realloc :: "addr \<Rightarrow> state \<Rightarrow> addr \<Rightarrow> size_t \<Rightarrow> (error + state \<times> addr) option" where
  "realloc heap s ptr sz =
     (if ptr = 0 then malloc heap s sz
      else if sz = 0 then
        (case free s ptr of Inl e \<Rightarrow> Some (Inl e) | Inr s1 \<Rightarrow> Some (Inr (s1, 0)))
      else
        let header_ptr = BLOCK_TO_HEADER ptr in
        if sz \<le> hdr_size (mem s) header_ptr then Some (Inr (s, ptr))
        else
          (case malloc heap s sz of
             None \<Rightarrow> None
           | Some (Inl e) \<Rightarrow> Some (Inl e)
           | Some (Inr (s1, new_block_ptr)) \<Rightarrow>
               if new_block_ptr \<noteq> 0 then
                 (let s2 = s1\<lparr>mem := memcpy (mem s1) new_block_ptr ptr
                                        (hdr_size (mem s1) header_ptr)\<rparr>
                  in case free s2 ptr of
                       Inl e \<Rightarrow> Some (Inl e)
                     | Inr s3 \<Rightarrow> Some (Inr (s3, new_block_ptr)))
               else Some (Inr (s1, new_block_ptr))))"

subsection \<open>Linked lists in memory\<close>

text \<open>\<open>path m a xs e\<close>: starting at the pointer \<open>a\<close> and following \<open>next\<close>, the headers met
  are \<open>xs\<close>, none of them \<open>NULL\<close>, and the pointer after the last one is \<open>e\<close>. A list
  with head \<open>a\<close> is \<open>path m a xs 0\<close>.\<close>

fun path :: "memory \<Rightarrow> addr \<Rightarrow> addr list \<Rightarrow> addr \<Rightarrow> bool" where
  "path m a [] e = (a = e)"
| "path m a (x # xs) e = (a = x \<and> x \<noteq> 0 \<and> path m (hdr_next m x) xs e)"

text \<open>The search loop run over the list of headers it visits.\<close>

fun pick :: "memory \<Rightarrow> size_t \<Rightarrow> addr list \<Rightarrow> addr \<Rightarrow> addr" where
  "pick m sz [] best = best"
| "pick m sz (x # xs) best =
     (if better m sz x best \<noteq> 0 \<and> hdr_size m (better m sz x best) = sz
      then better m sz x best
      else pick m sz xs (better m sz x best))"

subsection \<open>Example states\<close>

text \<open>An initialised, empty heap whose region starts at address 4096 (the state after a
  first call \<open>malloc(0)\<close>), and the state that \<open>malloc(24)\<close> leaves when it is the first
  call of the process (the header at 4112, the block at 4144).\<close>

definition fresh_heap :: "memory \<Rightarrow> state" where
  "fresh_heap m =
     \<lparr>free_addr = 4096, start_addr = 4096, end_addr = 4096 + HEAP_SIZE,
      free_list_head = 0, allocated_list_head = 0, mem = m\<rparr>"

definition one_block :: "memory \<Rightarrow> state" where
  "one_block m =
     \<lparr>free_addr = 4168, start_addr = 4096, end_addr = 4096 + HEAP_SIZE,
      free_list_head = 0, allocated_list_head = 4112,
      mem = set_allocated (set_size (set_prev (set_next m 4112 0) 4112 0) 4112 24) 4112 True\<rparr>"

text \<open>The state in which a request of 3 GiB leaves the empty heap (it fails, and its
  header stays at 4112), and the state after \<open>malloc(24)\<close> and \<open>malloc(19)\<close>.\<close>

definition phantom_only :: "memory \<Rightarrow> state" where
  "phantom_only m =
     \<lparr>free_addr = 4112, start_addr = 4096, end_addr = 4096 + HEAP_SIZE,
      free_list_head = 0, allocated_list_head = 4112,
      mem = set_allocated (set_size (set_prev (set_next m 4112 0) 4112 0) 4112
              (3 * 1024 * 1024 * 1024)) 4112 True\<rparr>"

definition two_blocks :: "memory \<Rightarrow> state" where
  "two_blocks m =
     \<lparr>free_addr = 4227, start_addr = 4096, end_addr = 4096 + HEAP_SIZE,
      free_list_head = 0, allocated_list_head = 4176,
      mem = set_allocated (set_size (set_prev (set_prev (set_next (mem (one_block m))
              4176 4112) 4176 0) 4112 4176) 4176 19) 4176 True\<rparr>"

text \<open>The state after that failed request and a following \<open>malloc(1)\<close>: the new
  header is at 4128, inside the 32 bytes of the header left at 4112.\<close>

definition overlapped :: "memory \<Rightarrow> state" where
  "overlapped m =
     \<lparr>free_addr = 4161, start_addr = 4096, end_addr = 4096 + HEAP_SIZE,
      free_list_head = 0, allocated_list_head = 4128,
      mem = set_allocated (set_size (set_prev (set_prev (set_next (mem (phantom_only m))
              4128 4112) 4128 0) 4112 4128) 4128 1) 4128 True\<rparr>"

text \<open>The states that follow when a third block of 32 bytes is allocated and the three
  blocks are then released in the order 24, 19, 32 (the order of the test program
  \<open>memtest.c\<close>): the free list ends as the blocks of sizes 32, 19 and 24, from the head.\<close>

definition three_blocks :: "memory \<Rightarrow> state" where
  "three_blocks m =
     \<lparr>free_addr = 4304, start_addr = 4096, end_addr = 4096 + HEAP_SIZE,
      free_list_head = 0, allocated_list_head = 4240,
      mem = set_allocated (set_size (set_prev (set_prev (set_next (mem (two_blocks m))
              4240 4176) 4240 0) 4176 4240) 4240 32) 4240 True\<rparr>"

definition one_free :: "memory \<Rightarrow> state" where
  "one_free m =
     \<lparr>free_addr = 4304, start_addr = 4096, end_addr = 4096 + HEAP_SIZE,
      free_list_head = 4112, allocated_list_head = 4240,
      mem = set_allocated (set_prev (set_next (set_next (mem (three_blocks m))
              4176 0) 4112 0) 4112 0) 4112 False\<rparr>"

definition two_free :: "memory \<Rightarrow> state" where
  "two_free m =
     \<lparr>free_addr = 4304, start_addr = 4096, end_addr = 4096 + HEAP_SIZE,
      free_list_head = 4176, allocated_list_head = 4240,
      mem = set_allocated (set_prev (set_prev (set_next (set_next (mem (one_free m))
              4240 0) 4176 4112) 4176 0) 4112 4176) 4176 False\<rparr>"

definition three_free :: "memory \<Rightarrow> state" where
  "three_free m =
     \<lparr>free_addr = 4304, start_addr = 4096, end_addr = 4096 + HEAP_SIZE,
      free_list_head = 4240, allocated_list_head = 0,
      mem = set_allocated (set_prev (set_prev (set_next (mem (two_free m))
              4240 4176) 4240 0) 4176 4240) 4240 False\<rparr>"

text \<open>The state in which \<open>malloc\<close> of 2 GiB - 48 leaves the empty heap: the block ends at
  \<open>end_addr\<close>, and so does the cursor.\<close>

definition full_heap :: "memory \<Rightarrow> state" where
  "full_heap m =
     \<lparr>free_addr = 4096 + HEAP_SIZE, start_addr = 4096, end_addr = 4096 + HEAP_SIZE,
      free_list_head = 0, allocated_list_head = 4112,
      mem = set_allocated (set_size (set_prev (set_next m 4112 0) 4112 0) 4112
              (HEAP_SIZE - 48)) 4112 True\<rparr>"

text \<open>The states in which requests of \<open>2^64 - 100\<close> and of \<open>2^63 + 5\<close> bytes leave the
  empty heap. Both are granted the block at 4144; the cursor is 4144 plus the size, modulo
  \<open>2^64\<close>: 4044 after the first, \<open>2^63 + 4149\<close> after the second.\<close>

definition moved_back :: "memory \<Rightarrow> state" where
  "moved_back m =
     \<lparr>free_addr = 4044, start_addr = 4096, end_addr = 4096 + HEAP_SIZE,
      free_list_head = 0, allocated_list_head = 4112,
      mem = set_allocated (set_size (set_prev (set_next m 4112 0) 4112 0) 4112
              18446744073709551516) 4112 True\<rparr>"

definition negative_cursor :: "memory \<Rightarrow> state" where
  "negative_cursor m =
     \<lparr>free_addr = 9223372036854779957, start_addr = 4096, end_addr = 4096 + HEAP_SIZE,
      free_list_head = 0, allocated_list_head = 4112,
      mem = set_allocated (set_size (set_prev (set_next m 4112 0) 4112 0) 4112
              9223372036854775813) 4112 True\<rparr>"

text \<open>The state after \<open>malloc(24)\<close> and \<open>malloc(2^64 - 80)\<close>: the second block is
  granted at 4208 and the cursor is \<open>4208 + 2^64 - 80\<close> modulo \<open>2^64\<close>, which is 4128,
  below the first block. And the state in which a request of 3 GiB then fails: its header
  is at 4144, the address of the first block.\<close>

definition wrapped_back :: "memory \<Rightarrow> state" where
  "wrapped_back m =
     \<lparr>free_addr = 4128, start_addr = 4096, end_addr = 4096 + HEAP_SIZE,
      free_list_head = 0, allocated_list_head = 4176,
      mem = set_allocated (set_size (set_prev (set_prev (set_next (mem (one_block m))
              4176 4112) 4176 0) 4112 4176) 4176 18446744073709551536) 4176 True\<rparr>"

definition overwritten :: "memory \<Rightarrow> state" where
  "overwritten m =
     \<lparr>free_addr = 4144, start_addr = 4096, end_addr = 4096 + HEAP_SIZE,
      free_list_head = 0, allocated_list_head = 4144,
      mem = set_allocated (set_size (set_prev (set_prev (set_next (mem (wrapped_back m))
              4144 4176) 4144 0) 4176 4144) 4144 (3 * 1024 * 1024 * 1024)) 4144 True\<rparr>"

text \<open>The last of these states with the \<open>next\<close> pointer of the second free block
  turned back on the block itself, so that the chain from the head never reaches
  \<open>NULL\<close> (a damaged list, to run the search on).\<close>

definition three_free_cyclic :: "memory \<Rightarrow> state" where
  "three_free_cyclic m = (three_free m)\<lparr>mem := set_next (mem (three_free m)) 4176 4176\<rparr>"

section \<open>Properties\<close>

subsection \<open>Reading back what was written\<close>

lemma byte_at_bit: "bit (byte_at v k) n = (n < 8 \<and> bit v (8 * k + n))"
  by (auto simp: byte_at_def bit_simps)

lemma wob_Cons_bit:
  "bit (word_of_bytes (b # bs)) n =
     (if n < 8 then bit b n else n < 64 \<and> bit (word_of_bytes bs) (n - 8))"
  by (auto simp: bit_simps dest: bit_imp_le_length)

lemma wob_map_bit:
  "bit (word_of_bytes (map (byte_at v) [k..<k + l])) n = (n < 8 * l \<and> n < 64 \<and> bit v (8 * k + n))"
proof (induction l arbitrary: k n)
  case 0
  then show ?case by simp
next
  case (Suc l)
  have l: "[k..<k + Suc l] = k # [Suc k..<Suc k + l]"
    by (simp add: upt_rec)
  show ?case
  proof (cases "n < 8")
    case True
    then show ?thesis unfolding l list.map wob_Cons_bit by (simp add: byte_at_bit)
  next
    case False
    then have e: "8 * Suc k + (n - 8) = 8 * k + n" by simp
    have f: "(n - 8 < 8 * l) = (n < 8 * Suc l)" using False by auto
    show ?thesis unfolding l list.map wob_Cons_bit Suc.IH e f using False by auto
  qed
qed

lemma upt8: "[0..<8] = [0, 1, 2, 3, 4, 5, 6, 7::nat]"
  by (simp add: upt_rec)

lemma word_of_bytes8:
  "word_of_bytes [byte_at v 0, byte_at v 1, byte_at v 2, byte_at v 3,
                  byte_at v 4, byte_at v 5, byte_at v 6, byte_at v 7] = v"
proof -
  have "bit (word_of_bytes (map (byte_at v) [0..<8])) n = bit v n" if "n < 64" for n
    using wob_map_bit [of v 0 8 n] that by simp
  then have "word_of_bytes (map (byte_at v) [0..<8]) = v"
    by (intro bit_word_eqI) simp
  then show ?thesis by (simp add: upt8)
qed

lemma load64_store64_same: "load64 (store64 m a v) a = v"
  using word_of_bytes8 [of v] by (simp add: load64_def store64_def)

lemma store64_disj: "8 \<le> x - a \<Longrightarrow> store64 m a v x = m x"
  by (simp add: store64_def not_less [symmetric])

lemma off_disj:
  assumes "8 \<le> d" "d \<le> - 8" "k < 8"
  shows "8 \<le> d + (k::64 word)"
proof -
  have d: "8 \<le> unat d" "unat d \<le> 18446744073709551608" and k: "unat k < 8"
    using assms by (simp_all add: word_le_nat_alt word_less_nat_alt)
  then have "unat d + unat k < 2 ^ LENGTH(64)" by simp
  then have "unat (d + k) = unat d + unat k" by (simp only: unat_add_lem)
  then show ?thesis using d by (simp add: word_le_nat_alt)
qed

lemma load64_store64_disj:
  assumes "8 \<le> b - a" "b - a \<le> - 8"
  shows "load64 (store64 m a v) b = load64 m b"
proof -
  have "8 \<le> b + k - a" if "k < 8" for k
    using off_disj [OF assms that] by (simp add: algebra_simps)
  then have "store64 m a v (b + k) = m (b + k)" if "k < 8" for k
    using that by (simp add: store64_disj)
  from this [of 0] this [of 1] this [of 2] this [of 3] this [of 4] this [of 5] this [of 6] this [of 7]
  show ?thesis by (simp add: load64_def)
qed

lemma load64_upd_disj:
  assumes "8 \<le> x - b"
  shows "load64 (m(x := c)) b = load64 m b"
proof -
  have "x \<noteq> b + k" if "k < 8" for k
    using assms that by auto
  from this [of 0] this [of 1] this [of 2] this [of 3] this [of 4] this [of 5] this [of 6] this [of 7]
  show ?thesis by (simp add: load64_def)
qed

lemmas field_defs = hdr_next_def hdr_prev_def hdr_size_def hdr_allocated_def
  set_next_def set_prev_def set_size_def set_allocated_def

lemmas mem_simps = load64_store64_same load64_store64_disj load64_upd_disj

lemma hdr_allocated_set_allocated: "hdr_allocated (set_allocated m h b) h = b"
  by (simp add: hdr_allocated_def set_allocated_def)

lemma hdr_size_set: "hdr_size (set_allocated (set_size m h v) h b) h = v"
  by (simp add: field_defs mem_simps)

subsection \<open>The best-fit search\<close>

lemma search_null: "search m sz 0 best = Some (Inr best)"
  by (subst search.simps) simp

lemma search_step:
  "current \<noteq> 0 \<Longrightarrow> search m sz current best =
     (if hdr_allocated m current then Some (Inl (AllocatedOnFreeList current))
      else if better m sz current best \<noteq> 0 \<and> hdr_size m (better m sz current best) = sz
        then Some (Inr (better m sz current best))
      else search m sz (hdr_next m current) (better m sz current best))"
  by (subst search.simps) simp

lemma search_pick:
  "path m current xs 0 \<Longrightarrow> \<forall>x\<in>set xs. \<not> hdr_allocated m x \<Longrightarrow>
   search m sz current best = Some (Inr (pick m sz xs best))"
proof (induction xs arbitrary: current best)
  case Nil
  then show ?case by (simp add: search_null)
next
  case (Cons x xs)
  from Cons.prems have c: "current = x" "x \<noteq> 0" "\<not> hdr_allocated m x"
    and p: "path m (hdr_next m x) xs 0" and a: "\<forall>y\<in>set xs. \<not> hdr_allocated m y"
    by simp_all
  show ?case
    unfolding c(1) search_step [OF c(2)]
    using c(3) Cons.IH [OF p a] by simp
qed

lemma search_exact:
  "path m current (ys @ [e]) nxt \<Longrightarrow> \<forall>x\<in>set (ys @ [e]). \<not> hdr_allocated m x \<Longrightarrow>
   \<forall>y\<in>set ys. hdr_size m y \<noteq> sz \<Longrightarrow> hdr_size m e = sz \<Longrightarrow>
   best \<noteq> 0 \<longrightarrow> sz < hdr_size m best \<Longrightarrow>
   search m sz current best = Some (Inr e)"
proof (induction ys arbitrary: current best)
  case Nil
  then have c: "current = e" "e \<noteq> 0" "\<not> hdr_allocated m e" by simp_all
  have b: "better m sz e best = e"
    using Nil.prems(4,5) by (auto simp: better_def)
  show ?case unfolding c(1) search_step [OF c(2)] using c b Nil.prems(4) by simp
next
  case (Cons y ys)
  from Cons.prems have c: "current = y" "y \<noteq> 0" "\<not> hdr_allocated m y" "hdr_size m y \<noteq> sz"
    and p: "path m (hdr_next m y) (ys @ [e]) nxt"
    and a: "\<forall>x\<in>set (ys @ [e]). \<not> hdr_allocated m x"
    and n: "\<forall>x\<in>set ys. hdr_size m x \<noteq> sz"
    by simp_all
  have inv: "better m sz y best \<noteq> 0 \<longrightarrow> sz < hdr_size m (better m sz y best)"
    using Cons.prems(5) c(4) by (auto simp: better_def)
  then have ne: "\<not> (better m sz y best \<noteq> 0 \<and> hdr_size m (better m sz y best) = sz)"
    by auto
  show ?case
    unfolding c(1) search_step [OF c(2)]
    using c(3) ne Cons.IH [OF p a n Cons.prems(4) inv] by auto
qed


lemma better_cases:
  "better m sz x best = x \<and> sz \<le> hdr_size m x \<and> (best \<noteq> 0 \<longrightarrow> hdr_size m x < hdr_size m best) \<or>
   better m sz x best = best \<and> (sz \<le> hdr_size m x \<longrightarrow> best \<noteq> 0 \<and> hdr_size m best \<le> hdr_size m x)"
  by (auto simp: better_def)

lemma pick_sufficient:
  "best \<noteq> 0 \<longrightarrow> sz \<le> hdr_size m best \<Longrightarrow> pick m sz xs best \<noteq> 0 \<Longrightarrow>
   sz \<le> hdr_size m (pick m sz xs best)"
proof (induction xs arbitrary: best)
  case Nil
  then show ?case by simp
next
  case (Cons x xs)
  have inv: "better m sz x best \<noteq> 0 \<longrightarrow> sz \<le> hdr_size m (better m sz x best)"
    using Cons.prems(1) better_cases [of m sz x best] by auto
  show ?case
  proof (cases "better m sz x best \<noteq> 0 \<and> hdr_size m (better m sz x best) = sz")
    case True
    then show ?thesis by simp
  next
    case False
    then have p: "pick m sz (x # xs) best = pick m sz xs (better m sz x best)" by auto
    show ?thesis using Cons.IH [OF inv] Cons.prems(2) unfolding p by simp
  qed
qed

lemma pick_smallest:
  "best \<noteq> 0 \<longrightarrow> sz \<le> hdr_size m best \<Longrightarrow> 0 \<notin> set xs \<Longrightarrow>
   (best \<noteq> 0 \<longrightarrow> pick m sz xs best \<noteq> 0 \<and> hdr_size m (pick m sz xs best) \<le> hdr_size m best) \<and>
   (\<forall>x\<in>set xs. sz \<le> hdr_size m x \<longrightarrow>
       pick m sz xs best \<noteq> 0 \<and> hdr_size m (pick m sz xs best) \<le> hdr_size m x)"
proof (induction xs arbitrary: best)
  case Nil
  then show ?case by simp
next
  case (Cons x xs)
  have inv: "better m sz x best \<noteq> 0 \<longrightarrow> sz \<le> hdr_size m (better m sz x best)"
    using Cons.prems(1) better_cases [of m sz x best] by auto
  show ?case
  proof (cases "better m sz x best \<noteq> 0 \<and> hdr_size m (better m sz x best) = sz")
    case True
    then have p: "pick m sz (x # xs) best = better m sz x best" by simp
    show ?thesis unfolding p using True Cons.prems by auto
  next
    case False
    then have p: "pick m sz (x # xs) best = pick m sz xs (better m sz x best)" by auto
    have x0: "x \<noteq> 0" and xs0: "0 \<notin> set xs"
      using Cons.prems(2) by auto
    show ?thesis unfolding p
      using Cons.IH [OF inv xs0] better_cases [of m sz x best] x0 by fastforce
  qed
qed


lemma pick_first:
  "best \<noteq> 0 \<longrightarrow> sz \<le> hdr_size m best \<Longrightarrow> 0 \<notin> set xs \<Longrightarrow> pick m sz xs best \<noteq> best \<Longrightarrow>
   \<exists>ys zs. xs = ys @ pick m sz xs best # zs \<and>
     (\<forall>y\<in>set ys. sz \<le> hdr_size m y \<longrightarrow> hdr_size m (pick m sz xs best) < hdr_size m y) \<and>
     (best \<noteq> 0 \<longrightarrow> hdr_size m (pick m sz xs best) < hdr_size m best)"
proof (induction xs arbitrary: best)
  case Nil
  then show ?case by simp
next
  case (Cons x xs)
  let ?b = "better m sz x best"
  let ?r = "pick m sz (x # xs) best"
  have inv: "?b \<noteq> 0 \<longrightarrow> sz \<le> hdr_size m ?b"
    using Cons.prems(1) better_cases [of m sz x best] by auto
  have r: "?r = ?b \<or> (?r = pick m sz xs ?b \<and> ?r \<noteq> ?b)"
    by auto
  show ?case
  proof (cases "?r = ?b")
    case True
    then have "?b \<noteq> best" using Cons.prems(3) by simp
    then have bx: "?b = x" and lt: "best \<noteq> 0 \<longrightarrow> hdr_size m x < hdr_size m best"
      using better_cases [of m sz x best] by auto
    have "x # xs = [] @ ?r # xs" using True bx by simp
    moreover have "\<forall>y\<in>set []. sz \<le> hdr_size m y \<longrightarrow> hdr_size m ?r < hdr_size m y" by simp
    moreover have "best \<noteq> 0 \<longrightarrow> hdr_size m ?r < hdr_size m best" using True bx lt by simp
    ultimately show ?thesis by blast
  next
    case False
    then have p: "?r = pick m sz xs ?b" and ne: "pick m sz xs ?b \<noteq> ?b"
      using r by auto
    have x0: "x \<noteq> 0" and xs0: "0 \<notin> set xs" using Cons.prems(2) by auto
    from Cons.IH [OF inv xs0 ne] obtain ys zs where
      xs: "xs = ys @ pick m sz xs ?b # zs"
      and ys: "\<forall>y\<in>set ys. sz \<le> hdr_size m y \<longrightarrow> hdr_size m (pick m sz xs ?b) < hdr_size m y"
      and lt: "?b \<noteq> 0 \<longrightarrow> hdr_size m (pick m sz xs ?b) < hdr_size m ?b"
      by blast
    have x: "sz \<le> hdr_size m x \<longrightarrow> hdr_size m (pick m sz xs ?b) < hdr_size m x"
      using lt x0 better_cases [of m sz x best] by auto
    have b: "best \<noteq> 0 \<longrightarrow> hdr_size m (pick m sz xs ?b) < hdr_size m best"
      using lt x0 better_cases [of m sz x best] by auto
    have "x # xs = (x # ys) @ ?r # zs" using xs p by simp
    moreover have "\<forall>y\<in>set (x # ys). sz \<le> hdr_size m y \<longrightarrow> hdr_size m ?r < hdr_size m y"
      using ys x p by simp
    moreover have "best \<noteq> 0 \<longrightarrow> hdr_size m ?r < hdr_size m best" using b p by simp
    ultimately show ?thesis by blast
  qed
qed

lemma path_nonnull: "path m a xs e \<Longrightarrow> 0 \<notin> set xs"
  by (induction xs arbitrary: a) auto

lemma init_lists:
  "init heap s0 = Inr s \<Longrightarrow>
     mem s = mem s0 \<and> free_list_head s = free_list_head s0 \<and> allocated_list_head s = allocated_list_head s0"
  by (auto simp: init_def split: if_splits)

text \<open>
  C1. A call \<open>malloc(sz)\<close> with \<open>sz > 0\<close>, on a free list \<open>xs\<close> (a chain of headers
  from the head to \<open>NULL\<close>, none marked allocated) that holds a block of size at least
  \<open>sz\<close>, reuses a block \<open>b\<close> of the list that is large enough, no larger than any
  other block that is large enough, and strictly smaller than every large-enough block
  that stands before it in the list: the smallest sufficient block, and the first of them
  from the head among equals. And the scan stops at the first block \<open>e\<close> of exactly the
  size asked for: when the chain from the head reaches \<open>e\<close> through blocks \<open>us\<close> of
  other sizes, \<open>e\<close> is the block reused, whatever follows \<open>e\<close> in memory (the rest
  need not be a list, and is not read).
\<close>

theorem malloc_best_fit:
  assumes "init heap s0 = Inr s" and "sz \<noteq> 0"
  shows "(path (mem s) (free_list_head s) xs 0 \<and> (\<forall>x\<in>set xs. \<not> hdr_allocated (mem s) x) \<and>
          (\<exists>x\<in>set xs. sz \<le> hdr_size (mem s) x) \<longrightarrow>
          (\<exists>ys b zs. xs = ys @ b # zs \<and>
             malloc heap s0 sz = Some (Inr (reuse s b)) \<and>
             snd (reuse s b) = HEADER_TO_BLOCK b \<and>
             sz \<le> hdr_size (mem s) b \<and>
             (\<forall>x\<in>set xs. sz \<le> hdr_size (mem s) x \<longrightarrow> hdr_size (mem s) b \<le> hdr_size (mem s) x) \<and>
             (\<forall>y\<in>set ys. sz \<le> hdr_size (mem s) y \<longrightarrow> hdr_size (mem s) b < hdr_size (mem s) y))) \<and>
         (path (mem s) (free_list_head s) (us @ [e]) nxt \<and>
          (\<forall>x\<in>set (us @ [e]). \<not> hdr_allocated (mem s) x) \<and>
          (\<forall>u\<in>set us. hdr_size (mem s) u \<noteq> sz) \<and> hdr_size (mem s) e = sz \<longrightarrow>
          malloc heap s0 sz = Some (Inr (reuse s e)))"
proof (intro conjI impI)
  assume h: "path (mem s) (free_list_head s) xs 0 \<and> (\<forall>x\<in>set xs. \<not> hdr_allocated (mem s) x) \<and>
          (\<exists>x\<in>set xs. sz \<le> hdr_size (mem s) x)"
  let ?m = "mem s"
  let ?r = "pick ?m sz xs 0"
  have s: "search ?m sz (free_list_head s) 0 = Some (Inr ?r)"
    using h by (intro search_pick) auto
  have z: "0 \<notin> set xs" using h path_nonnull by blast
  have inv: "(0::addr) \<noteq> 0 \<longrightarrow> sz \<le> hdr_size ?m 0" by simp
  from pick_smallest [OF inv z] h
  have r0: "?r \<noteq> 0" and least: "\<forall>x\<in>set xs. sz \<le> hdr_size ?m x \<longrightarrow> hdr_size ?m ?r \<le> hdr_size ?m x"
    by auto
  have suff: "sz \<le> hdr_size ?m ?r" using pick_sufficient [OF inv r0] .
  from pick_first [OF inv z r0] obtain ys zs where
    xs: "xs = ys @ ?r # zs"
    and first: "\<forall>y\<in>set ys. sz \<le> hdr_size ?m y \<longrightarrow> hdr_size ?m ?r < hdr_size ?m y"
    by blast
  have m: "malloc heap s0 sz = Some (Inr (reuse s ?r))"
    using assms s r0 by (simp add: malloc_def)
  have p: "snd (reuse s ?r) = HEADER_TO_BLOCK ?r"
    by (simp add: reuse_def Let_def)
  show "\<exists>ys b zs. xs = ys @ b # zs \<and>
             malloc heap s0 sz = Some (Inr (reuse s b)) \<and>
             snd (reuse s b) = HEADER_TO_BLOCK b \<and>
             sz \<le> hdr_size (mem s) b \<and>
             (\<forall>x\<in>set xs. sz \<le> hdr_size (mem s) x \<longrightarrow> hdr_size (mem s) b \<le> hdr_size (mem s) x) \<and>
             (\<forall>y\<in>set ys. sz \<le> hdr_size (mem s) y \<longrightarrow> hdr_size (mem s) b < hdr_size (mem s) y)"
    using xs m p suff least first by blast
next
  assume h: "path (mem s) (free_list_head s) (us @ [e]) nxt \<and>
          (\<forall>x\<in>set (us @ [e]). \<not> hdr_allocated (mem s) x) \<and>
          (\<forall>u\<in>set us. hdr_size (mem s) u \<noteq> sz) \<and> hdr_size (mem s) e = sz"
  have s: "search (mem s) sz (free_list_head s) 0 = Some (Inr e)"
    using h by (intro search_exact [where nxt = nxt and ys = us]) auto
  have "e \<noteq> 0" using h path_nonnull [of "mem s" "free_list_head s" "us @ [e]" nxt] by auto
  then show "malloc heap s0 sz = Some (Inr (reuse s e))"
    using assms s by (simp add: malloc_def)
qed


subsection \<open>Runs on the example states\<close>

text \<open>The definitions that a run on concrete addresses unfolds.\<close>

lemmas run_defs = malloc_def init_def MAP_FAILED_def search_null bump_def in_heap_def Let_def
  align_up_def c_rem_def signed_modulo_int_def HEADER_TO_BLOCK_def BLOCK_TO_HEADER_def
  sizeof_header_def HEAP_SIZE_def

lemma malloc_zero_first_use:
  "malloc 4096 (initial_state m) 0 = Some (Inr (fresh_heap m, 0))"
  by (simp add: malloc_def init_def MAP_FAILED_def initial_state_def fresh_heap_def)

lemma malloc_first_use:
  "malloc 4096 (initial_state m) 24 = Some (Inr (one_block m, 4144))"
  by (simp add: run_defs initial_state_def one_block_def field_defs mem_simps)

lemma malloc_too_large:
  "malloc 4096 (fresh_heap m) (3 * 1024 * 1024 * 1024) = Some (Inr (phantom_only m, 0))"
  by (simp add: run_defs fresh_heap_def phantom_only_def field_defs mem_simps)

lemma malloc_second:
  "malloc 4096 (one_block m) 19 = Some (Inr (two_blocks m, 4208))"
  by (simp add: run_defs one_block_def two_blocks_def field_defs mem_simps)

lemma malloc_too_large_first:
  "malloc 4096 (initial_state m) (3 * 1024 * 1024 * 1024) = Some (Inr (phantom_only m, 0))"
  by (simp add: run_defs initial_state_def phantom_only_def field_defs mem_simps)

lemma malloc_after_failure:
  "malloc 4096 (phantom_only m) 1 = Some (Inr (overlapped m, 4160))"
  by (simp add: run_defs phantom_only_def overlapped_def field_defs mem_simps)

lemma overlapped_list:
  "hdr_next (mem (overlapped m)) 4128 = 4112 \<and> hdr_next (mem (overlapped m)) 4112 = 0"
  by (simp add: overlapped_def phantom_only_def field_defs mem_simps)

lemma overlapped_flag: "\<not> hdr_allocated (mem (overlapped m)) 4112"
  by (simp add: overlapped_def phantom_only_def field_defs store64_def byte_at_def)

lemma overlapped_size: "hdr_size (mem (overlapped m)) 4112 = 4112"
  by (simp add: overlapped_def phantom_only_def field_defs mem_simps)

lemmas free_defs = free_def Let_def BLOCK_TO_HEADER_def sizeof_header_def

lemma malloc_third:
  "malloc 4096 (two_blocks m) 32 = Some (Inr (three_blocks m, 4272))"
  by (simp add: run_defs two_blocks_def three_blocks_def one_block_def field_defs mem_simps)

lemma three_blocks_4112:
  "hdr_allocated (mem (three_blocks m)) 4112"
  "hdr_next (mem (three_blocks m)) 4112 = 0"
  "hdr_prev (mem (three_blocks m)) 4112 = 4176"
  by (simp_all add: three_blocks_def two_blocks_def one_block_def field_defs mem_simps store64_disj)

lemma free_first:
  "free (three_blocks m) 4144 = Inr (one_free m)"
  using three_blocks_4112 [of m]
  by (simp add: free_defs one_free_def) (simp add: three_blocks_def field_defs mem_simps)


lemma one_free_4176:
  "hdr_allocated (mem (one_free m)) 4176"
  "hdr_next (mem (one_free m)) 4176 = 0"
  "hdr_prev (mem (one_free m)) 4176 = 4240"
  by (simp_all add: one_free_def three_blocks_def two_blocks_def one_block_def field_defs
        mem_simps store64_disj)

lemma free_second:
  "free (one_free m) 4208 = Inr (two_free m)"
  using one_free_4176 [of m]
  by (simp add: free_defs two_free_def) (simp add: one_free_def field_defs mem_simps)

lemma two_free_4240:
  "hdr_allocated (mem (two_free m)) 4240"
  "hdr_next (mem (two_free m)) 4240 = 0"
  "hdr_prev (mem (two_free m)) 4240 = 0"
  by (simp_all add: two_free_def one_free_def three_blocks_def two_blocks_def one_block_def
        field_defs mem_simps store64_disj)

lemma free_third:
  "free (two_free m) 4272 = Inr (three_free m)"
  using two_free_4240 [of m]
  by (simp add: free_defs three_free_def) (simp add: two_free_def field_defs mem_simps)

lemma three_free_fields:
  "hdr_next (mem (three_free m)) 4240 = 4176 \<and> hdr_next (mem (three_free m)) 4176 = 4112 \<and>
   hdr_next (mem (three_free m)) 4112 = 0 \<and>
   hdr_size (mem (three_free m)) 4240 = 32 \<and> hdr_size (mem (three_free m)) 4176 = 19 \<and>
   hdr_size (mem (three_free m)) 4112 = 24"
  by (simp add: three_free_def two_free_def one_free_def three_blocks_def two_blocks_def
        one_block_def field_defs mem_simps)

lemma three_free_flags:
  "\<not> hdr_allocated (mem (three_free m)) 4240 \<and> \<not> hdr_allocated (mem (three_free m)) 4176 \<and>
   \<not> hdr_allocated (mem (three_free m)) 4112"
  by (simp add: three_free_def two_free_def one_free_def three_blocks_def two_blocks_def
        one_block_def field_defs store64_disj)

lemma three_free_cyclic_fields:
  "hdr_next (mem (three_free_cyclic m)) 4240 = 4176 \<and>
   hdr_next (mem (three_free_cyclic m)) 4176 = 4176 \<and>
   hdr_size (mem (three_free_cyclic m)) 4240 = 32 \<and>
   hdr_size (mem (three_free_cyclic m)) 4176 = 19"
  by (simp add: three_free_cyclic_def three_free_def two_free_def one_free_def three_blocks_def two_blocks_def
        one_block_def field_defs mem_simps)

lemma three_free_cyclic_flags:
  "\<not> hdr_allocated (mem (three_free_cyclic m)) 4240 \<and>
   \<not> hdr_allocated (mem (three_free_cyclic m)) 4176"
  by (simp add: three_free_cyclic_def three_free_def two_free_def one_free_def three_blocks_def two_blocks_def
        one_block_def field_defs store64_disj)

text \<open>The example of the spec: with free blocks of sizes 32, 19 and 24, a request for 20
  reuses the block of size 24. And a request for 19 on the damaged list stops at the
  block of size 19 and returns.\<close>

theorem malloc_best_fit_witness:
  "malloc 4096 (three_free (\<lambda>_. 0)) 20 = Some (Inr (reuse (three_free (\<lambda>_. 0)) 4112)) \<and>
   snd (reuse (three_free (\<lambda>_. 0)) 4112) = 4144 \<and>
   hdr_size (mem (three_free (\<lambda>_. 0))) 4112 = 24 \<and>
   malloc 4096 (three_free_cyclic (\<lambda>_. 0)) 19 = Some (Inr (reuse (three_free_cyclic (\<lambda>_. 0)) 4176))"
proof -
  let ?s = "three_free (\<lambda>_. 0)"
  let ?c = "three_free_cyclic (\<lambda>_. 0)"
  let ?xs = "[4240, 4176, 4112] :: addr list"
  note f = three_free_fields [of "\<lambda>_. 0"] and a = three_free_flags [of "\<lambda>_. 0"]
  note cf = three_free_cyclic_fields [of "\<lambda>_. 0"] and ca = three_free_cyclic_flags [of "\<lambda>_. 0"]
  have i: "init 4096 ?s = Inr ?s" and ic: "init 4096 ?c = Inr ?c"
    by (simp_all add: init_def three_free_def three_free_cyclic_def)
  have h: "free_list_head ?s = 4240" "free_list_head ?c = 4240"
    by (simp_all add: three_free_def three_free_cyclic_def)
  have p: "path (mem ?s) (free_list_head ?s) ?xs 0 \<and> (\<forall>x\<in>set ?xs. \<not> hdr_allocated (mem ?s) x) \<and>
          (\<exists>x\<in>set ?xs. 20 \<le> hdr_size (mem ?s) x)"
    using f a h by simp
  have pc: "path (mem ?c) (free_list_head ?c) ([4240] @ [4176]) 4176 \<and>
          (\<forall>x\<in>set ([4240] @ [4176]). \<not> hdr_allocated (mem ?c) x) \<and>
          (\<forall>u\<in>set [4240]. hdr_size (mem ?c) u \<noteq> 19) \<and> hdr_size (mem ?c) 4176 = 19"
    using cf ca h by simp
  have z: "(20::64 word) \<noteq> 0" "(19::64 word) \<noteq> 0" by simp_all
  from malloc_best_fit [OF i z(1), THEN conjunct1, THEN mp, OF p] obtain ys b zs where
    xs: "?xs = ys @ b # zs" and m: "malloc 4096 ?s 20 = Some (Inr (reuse ?s b))"
    and r: "snd (reuse ?s b) = HEADER_TO_BLOCK b"
    and s: "20 \<le> hdr_size (mem ?s) b"
    and l: "\<forall>x\<in>set ?xs. 20 \<le> hdr_size (mem ?s) x \<longrightarrow> hdr_size (mem ?s) b \<le> hdr_size (mem ?s) x"
    by blast
  have "b \<in> set ?xs" unfolding xs by simp
  then have "b = 4240 \<or> b = 4176 \<or> b = 4112" by simp
  then have b: "b = 4112" using s l f by auto
  have "malloc 4096 ?c 19 = Some (Inr (reuse ?c 4176))"
    by (rule malloc_best_fit [OF ic z(2), THEN conjunct2, THEN mp, OF pc])
  then show ?thesis
    using m r f unfolding b by (simp add: HEADER_TO_BLOCK_def sizeof_header_def)
qed

subsection \<open>Requests of size zero\<close>

text \<open>
  C3, as the code has it. \<open>malloc\<close> calls \<open>init\<close> before it looks at the size. So
  \<open>malloc(0)\<close> on a heap that is already initialised (\<open>start_addr\<close> not zero) returns
  \<open>NULL\<close> and leaves the whole state as it was; on the first use it reserves the region
  first: when \<open>mmap\<close> fails the process ends, otherwise the result is \<open>NULL\<close>, the two
  lists and the memory are unchanged, and \<open>start_addr\<close>, \<open>end_addr\<close> and
  \<open>free_addr\<close> are set to the base of the region, the base plus 2 GiB, and the base.
\<close>

theorem malloc_zero:
  "malloc heap s 0 =
     (if start_addr s \<noteq> 0 then Some (Inr (s, 0))
      else if heap = MAP_FAILED then Some (Inl MmapFailed)
      else Some (Inr (s\<lparr>start_addr := heap, end_addr := heap + HEAP_SIZE, free_addr := heap\<rparr>, 0)))"
  by (simp add: malloc_def init_def)

text \<open>
  C3 as stated fails on the first call of a process: \<open>malloc(0)\<close> on the initial state
  (every global zero), with \<open>mmap\<close> returning 4096, returns \<open>NULL\<close> and changes
  \<open>start_addr\<close>, \<open>end_addr\<close> and \<open>free_addr\<close>.
\<close>

theorem malloc_zero_first_use_counterexample:
  "\<exists>s. malloc 4096 (initial_state (\<lambda>_. 0)) 0 = Some (Inr (s, 0)) \<and>
       start_addr s \<noteq> start_addr (initial_state (\<lambda>_. 0)) \<and>
       end_addr s \<noteq> end_addr (initial_state (\<lambda>_. 0)) \<and>
       free_addr s \<noteq> free_addr (initial_state (\<lambda>_. 0))"
  by (simp add: malloc_def init_def initial_state_def MAP_FAILED_def HEAP_SIZE_def)

subsection \<open>The bump path\<close>

lemma smod_16_bounds: "- 16 < (k::int) smod 16 \<and> k smod 16 < 16"
  by (auto simp: signed_modulo_int_def sgn_if intro: le_less_trans [of _ 0])

lemma align_up_of_int:
  "align_up a = word_of_int (sint a + (16 - sint a smod 16))"
proof -
  have "(word_of_int (sint a + (16 - sint a smod 16)) :: 64 word) =
        word_of_int (sint a) + (16 - word_of_int (sint a smod 16))"
    by simp
  also have "\<dots> = a + (16 - word_of_int (sint a smod 16))"
    by simp
  finally show ?thesis by (simp add: align_up_def c_rem_def)
qed

lemma align_up_aligned: "uint (align_up a) mod 16 = 0"
proof -
  have "sint a = sint a sdiv 16 * 16 + sint a smod 16"
    by (simp add: sdiv_mult_smod_eq)
  then have e: "sint a + (16 - sint a smod 16) = 16 * (sint a sdiv 16 + 1)"
    by simp
  have "uint (align_up a) = (16 * (sint a sdiv 16 + 1)) mod 2 ^ LENGTH(64)"
    unfolding align_up_of_int e by (rule uint_word_of_int)
  moreover have "((16 * (sint a sdiv 16 + 1)) mod 2 ^ LENGTH(64)) mod 16 = (16 * (sint a sdiv 16 + 1)) mod (16::int)"
    by (rule mod_mod_cancel) simp
  ultimately show ?thesis by simp
qed

lemma align_up_changes: "align_up a \<noteq> a"
proof
  assume "align_up a = a"
  then have "uint (align_up a) = uint a" by simp
  then have "(sint a + (16 - sint a smod 16)) mod 2 ^ LENGTH(64) = uint a"
    unfolding align_up_of_int uint_word_of_int .
  moreover have "uint a = sint a mod 2 ^ LENGTH(64)"
  proof -
    have "uint a = uint (word_of_int (sint a) :: 64 word)" by simp
    also have "\<dots> = sint a mod 2 ^ LENGTH(64)" by (rule uint_word_of_int)
    finally show ?thesis .
  qed
  ultimately have "(sint a + (16 - sint a smod 16)) mod 2 ^ 64 = sint a mod 2 ^ 64"
    by simp
  then have "(2::int) ^ 64 dvd (sint a + (16 - sint a smod 16)) - sint a"
    by (simp only: mod_eq_dvd_iff)
  then have d: "(2::int) ^ 64 dvd 16 - sint a smod 16" by simp
  have "0 < 16 - sint a smod 16" "16 - sint a smod 16 < 2 ^ 64"
    using smod_16_bounds [of "sint a"] by auto
  then show False using d zdvd_not_zless by blast
qed

lemma align_up_sint:
  assumes "0 \<le> sint a" "sint a < 2 ^ 63 - 16"
  shows "sint (align_up a) = sint a + 16 - sint a mod 16"
proof -
  have r: "sint a smod 16 = sint a mod 16"
    using assms(1) by (auto simp: signed_modulo_int_def sgn_if)
  have b: "0 \<le> sint a mod 16" "sint a mod 16 < 16" by simp_all
  have "sint (align_up a) = signed_take_bit (LENGTH(64) - 1) (sint a + (16 - sint a mod 16))"
    unfolding align_up_of_int r by (rule sint_sbintrunc')
  also have "\<dots> = sint a + 16 - sint a mod 16"
    using assms b by (simp add: signed_take_bit_int_eq_self)
  finally show ?thesis .
qed


lemma sint_uint_small: "uint (w::64 word) < 2 ^ 63 \<Longrightarrow> sint w = uint w"
proof -
  assume "uint w < 2 ^ 63"
  moreover have "- (2 ^ 63) \<le> uint w"
    by (rule order_trans [of _ 0]) simp_all
  ultimately have "signed_take_bit 63 (uint w) = uint w"
    by (rule signed_take_bit_int_eq_self [rotated])
  then show ?thesis by (simp add: sint_uint)
qed

lemma pick_none: "\<forall>x\<in>set xs. hdr_size m x < sz \<Longrightarrow> pick m sz xs 0 = 0"
  by (induction xs) (auto simp: better_def)

lemma search_no_fit:
  assumes "path m current xs 0" and "\<forall>x\<in>set xs. \<not> hdr_allocated m x \<and> hdr_size m x < sz"
  shows "search m sz current 0 = Some (Inr 0)"
proof -
  have "search m sz current 0 = Some (Inr (pick m sz xs 0))"
    using assms by (intro search_pick) auto
  then show ?thesis using assms(2) by (simp add: pick_none)
qed

lemma malloc_bump:
  assumes "init heap s0 = Inr s" and "sz \<noteq> 0"
    and "path (mem s) (free_list_head s) xs 0"
    and "\<forall>x\<in>set xs. \<not> hdr_allocated (mem s) x \<and> hdr_size (mem s) x < sz"
  shows "malloc heap s0 sz = Some (bump s sz)"
  using assms(1,2) search_no_fit [OF assms(3,4)] by (simp add: malloc_def)

lemma hdr_next_after_prev: "hdr_next (set_prev (set_next m h a) h v) h = a"
  by (simp add: field_defs mem_simps)

lemma in_heap_offset:
  assumes "in_heap s x n" and "unat k + j \<le> n"
  shows "in_heap s (x + k) j"
proof -
  have hs: "unat HEAP_SIZE = 2147483648" by (simp add: HEAP_SIZE_def)
  have a: "unat (x - start_addr s) + n \<le> 2147483648"
    using assms(1) unfolding in_heap_def hs .
  have c: "x + k - start_addr s = x - start_addr s + k" by simp
  have "unat (x - start_addr s) + unat k < 2 ^ LENGTH(64)"
    using a assms(2) by simp
  then have "unat (x + k - start_addr s) = unat (x - start_addr s) + unat k"
    unfolding c by (rule unat_add_lem [THEN iffD1])
  then show ?thesis
    unfolding in_heap_def hs using a assms(2) by linarith
qed

lemma bump_in_heap:
  assumes "in_heap s (align_up (free_addr s)) 32"
    and "allocated_list_head s = 0 \<or> in_heap s (allocated_list_head s) 32"
  shows "\<exists>s'. bump s sz =
           Inr (s', if word_sless (end_addr s) (HEADER_TO_BLOCK (align_up (free_addr s)) + sz)
                    then 0 else HEADER_TO_BLOCK (align_up (free_addr s))) \<and>
           allocated_list_head s' = align_up (free_addr s) \<and>
           free_list_head s' = free_list_head s \<and>
           start_addr s' = start_addr s \<and> end_addr s' = end_addr s \<and>
           hdr_size (mem s') (align_up (free_addr s)) = sz \<and>
           hdr_allocated (mem s') (align_up (free_addr s)) \<and>
           free_addr s' =
             (if word_sless (end_addr s) (HEADER_TO_BLOCK (align_up (free_addr s)) + sz)
              then align_up (free_addr s)
              else HEADER_TO_BLOCK (align_up (free_addr s)) + sz)"
proof -
  let ?h = "align_up (free_addr s)"
  let ?a = "allocated_list_head s"
  have h0: "in_heap s ?h 8"
    using in_heap_offset [OF assms(1), of 0 8] by simp
  have h8: "in_heap s (?h + 8) 8"
    using in_heap_offset [OF assms(1), of 8 8] by simp
  have h16: "in_heap s (?h + 16) 8"
    using in_heap_offset [OF assms(1), of 16 8] by simp
  have h24: "in_heap s (?h + 24) 1"
    using in_heap_offset [OF assms(1), of 24 1] by simp
  have a8: "?a \<noteq> 0 \<Longrightarrow> in_heap s (?a + 8) 8"
    using assms(2) in_heap_offset [of s ?a 32 8 8] by auto
  show ?thesis
  proof (cases "word_sless (end_addr s) (HEADER_TO_BLOCK ?h + sz)")
    case True
    then show ?thesis
      using h0 h8 h16 h24 a8
      by (simp add: bump_def Let_def in_heap_def hdr_next_after_prev hdr_size_set
            hdr_allocated_set_allocated)
  next
    case False
    then show ?thesis
      using h0 h8 h16 h24 a8
      by (simp add: bump_def Let_def in_heap_def hdr_next_after_prev hdr_size_set
            hdr_allocated_set_allocated)
  qed
qed

text \<open>
  C2, as the code has it. Take a call \<open>malloc(sz)\<close> with \<open>sz > 0\<close> that finds no free
  block of size at least \<open>sz\<close>, so that it takes the bump path. Let every header that the
  call reads or writes lie inside the mapped region: the headers of the free list, which
  the search reads; the 32 bytes of the new header, at the padded cursor; and the header at
  the head of the allocated list when that list is not empty (its \<open>prev\<close> field is
  written).
  Let the new bump position, the block address plus \<open>sz\<close> as a sum of natural numbers, be
  above \<open>end_addr\<close> and below \<open>2^63\<close>: the code computes this sum modulo \<open>2^64\<close> and
  compares it as a signed \<open>intptr_t\<close>, and below \<open>2^63\<close> that is the sum itself. Then the
  call returns \<open>NULL\<close>; the header it wrote is the head of the allocated list, marked
  allocated, with the size asked for; and \<open>free_addr\<close> is left at the address of that
  header, which is the cursor the call started from plus the alignment padding, never that
  cursor itself: the cursor was moved by the padding, not past the header and the block.
  The head of the free list and the bounds of the region are as before.
\<close>

theorem malloc_out_of_space:
  assumes "init heap s0 = Inr s" and "sz \<noteq> 0"
    and "path (mem s) (free_list_head s) xs 0"
    and "\<forall>x\<in>set xs. in_heap s x 32 \<and> \<not> hdr_allocated (mem s) x \<and> hdr_size (mem s) x < sz"
    and "in_heap s (align_up (free_addr s)) 32"
    and "allocated_list_head s = 0 \<or> in_heap s (allocated_list_head s) 32"
    and "sint (end_addr s) < uint (HEADER_TO_BLOCK (align_up (free_addr s))) + uint sz"
    and "uint (HEADER_TO_BLOCK (align_up (free_addr s))) + uint sz < 2 ^ 63"
  shows "\<exists>s'. malloc heap s0 sz = Some (Inr (s', 0)) \<and>
           allocated_list_head s' = align_up (free_addr s) \<and>
           hdr_allocated (mem s') (allocated_list_head s') \<and>
           hdr_size (mem s') (allocated_list_head s') = sz \<and>
           free_addr s' = align_up (free_addr s) \<and>
           free_addr s' \<noteq> free_addr s \<and>
           free_list_head s' = free_list_head s \<and>
           start_addr s' = start_addr s \<and> end_addr s' = end_addr s"
proof -
  let ?p = "HEADER_TO_BLOCK (align_up (free_addr s))"
  have "uint (?p + sz) = (uint ?p + uint sz) mod 2 ^ LENGTH(64)"
    by (simp add: uint_word_ariths)
  then have u: "uint (?p + sz) = uint ?p + uint sz"
    using assms(8) by simp
  then have "sint (?p + sz) = uint ?p + uint sz"
    using assms(8) sint_uint_small [of "?p + sz"] by simp
  then have t: "word_sless (end_addr s) (?p + sz)"
    using assms(7) by (simp add: word_sless_alt)
  from bump_in_heap [OF assms(5,6), of sz] t obtain s' where
    b: "bump s sz = Inr (s', 0)"
    and g: "allocated_list_head s' = align_up (free_addr s)" "free_list_head s' = free_list_head s"
      "start_addr s' = start_addr s" "end_addr s' = end_addr s"
      "hdr_size (mem s') (align_up (free_addr s)) = sz"
      "hdr_allocated (mem s') (align_up (free_addr s))"
      "free_addr s' = align_up (free_addr s)"
    by auto
  have "\<forall>x\<in>set xs. \<not> hdr_allocated (mem s) x \<and> hdr_size (mem s) x < sz"
    using assms(4) by blast
  then have "malloc heap s0 sz = Some (Inr (s', 0))"
    using malloc_bump [OF assms(1-3)] b by simp
  then show ?thesis
    using g align_up_changes [of "free_addr s"] by auto
qed

lemma one_free_4112:
  "hdr_next (mem (one_free m)) 4112 = 0"
  "hdr_size (mem (one_free m)) 4112 = 24"
  "\<not> hdr_allocated (mem (one_free m)) 4112"
  by (simp_all add: one_free_def three_blocks_def two_blocks_def one_block_def field_defs
        mem_simps store64_disj)

text \<open>An instance: after the three allocations of 24, 19 and 32 bytes and the release of
  the first, the free list holds the block of 24 bytes and the allocated list the other
  two. A request of 3 GiB finds the free block too small, pads the cursor from 4304 to
  4320, writes its header there, and returns \<open>NULL\<close> with the cursor at 4320.\<close>

theorem malloc_out_of_space_witness:
  "\<exists>s'. malloc 4096 (one_free (\<lambda>_. 0)) (3 * 1024 * 1024 * 1024) = Some (Inr (s', 0)) \<and>
        free_addr (one_free (\<lambda>_. 0)) = 4304 \<and>
        allocated_list_head s' = 4320 \<and> hdr_allocated (mem s') 4320 \<and>
        hdr_size (mem s') 4320 = 3 * 1024 * 1024 * 1024 \<and> free_addr s' = 4320 \<and>
        free_list_head s' = 4112"
proof -
  let ?s = "one_free (\<lambda>_. 0)"
  have i: "init 4096 ?s = Inr ?s" by (simp add: init_def one_free_def)
  have z: "(3 * 1024 * 1024 * 1024 :: 64 word) \<noteq> 0" by simp
  have g: "free_list_head ?s = 4112" "allocated_list_head ?s = 4240" "free_addr ?s = 4304"
    "start_addr ?s = 4096" "end_addr ?s = 4096 + HEAP_SIZE"
    by (simp_all add: one_free_def)
  have p: "path (mem ?s) (free_list_head ?s) [4112] 0"
    using one_free_4112 [of "\<lambda>_. 0"] g by simp
  have n: "\<forall>x\<in>set [4112]. in_heap ?s x 32 \<and> \<not> hdr_allocated (mem ?s) x \<and>
             hdr_size (mem ?s) x < 3 * 1024 * 1024 * 1024"
    using one_free_4112 [of "\<lambda>_. 0"] by (simp add: in_heap_def g HEAP_SIZE_def)
  have a: "align_up 4304 = (4320 :: 64 word)"
    by (simp add: align_up_def c_rem_def signed_modulo_int_def)
  have r: "in_heap ?s (align_up (free_addr ?s)) 32"
    unfolding g a by (simp add: in_heap_def g HEAP_SIZE_def)
  have l: "allocated_list_head ?s = 0 \<or> in_heap ?s (allocated_list_head ?s) 32"
    by (simp add: in_heap_def g HEAP_SIZE_def)
  have e: "sint (end_addr ?s) < uint (HEADER_TO_BLOCK (align_up (free_addr ?s))) + uint (3 * 1024 * 1024 * 1024 :: 64 word)"
    unfolding g a by (simp add: g HEADER_TO_BLOCK_def sizeof_header_def HEAP_SIZE_def)
  have w: "uint (HEADER_TO_BLOCK (align_up (free_addr ?s))) + uint (3 * 1024 * 1024 * 1024 :: 64 word) < 2 ^ 63"
    unfolding g a by (simp add: HEADER_TO_BLOCK_def sizeof_header_def)
  from malloc_out_of_space [OF i z p n r l e w] show ?thesis
    unfolding g a by auto
qed

text \<open>
  C2 as stated says the cursor has not been advanced by the call. On the empty heap at
  4096, a request of 3 GiB takes the bump path (the free list is empty), its new bump
  position is beyond the end of the 2 GiB region, the result is \<open>NULL\<close>, and
  \<open>free_addr\<close> went from 4096 to 4112.
\<close>

theorem malloc_out_of_space_counterexample:
  "\<exists>s'. free_list_head (fresh_heap (\<lambda>_. 0)) = 0 \<and>
        word_sless (end_addr (fresh_heap (\<lambda>_. 0)))
          (HEADER_TO_BLOCK (align_up (free_addr (fresh_heap (\<lambda>_. 0)))) + 3 * 1024 * 1024 * 1024) \<and>
        malloc 4096 (fresh_heap (\<lambda>_. 0)) (3 * 1024 * 1024 * 1024) = Some (Inr (s', 0)) \<and>
        free_addr (fresh_heap (\<lambda>_. 0)) = 4096 \<and> free_addr s' = 4112"
  by (simp add: run_defs fresh_heap_def field_defs mem_simps)

text \<open>
  The two conditions on addresses in C2 are needed, and the runs below show it. A request
  of 2 GiB - 48 on the empty heap is granted and leaves the cursor at \<open>end_addr\<close>; the next
  request, of one byte, takes the bump path, and its new bump position is beyond
  \<open>end_addr\<close>, but it does not return \<open>NULL\<close>: the first store of its header, at
  \<open>end_addr + 16\<close>, is outside the region. And a request of \<open>2^63 + 5\<close> bytes on the empty
  heap has its new bump position, \<open>4144 + 2^63 + 5\<close>, far beyond \<open>end_addr\<close>, but the sum
  is negative as an \<open>intptr_t\<close>, the test \<open>new_free_addr > end_addr\<close> is false, and the
  call returns the block at 4144.
\<close>

lemma malloc_fills:
  "malloc 4096 (fresh_heap m) 2147483600 = Some (Inr (full_heap m, 4144))"
  by (simp add: run_defs fresh_heap_def full_heap_def field_defs mem_simps)

lemma malloc_when_full:
  "malloc 4096 (full_heap m) 1 = Some (Inl (SegFault 2147487760))"
  by (simp add: run_defs full_heap_def field_defs mem_simps)

lemma malloc_moves_back:
  "malloc 4096 (fresh_heap m) 18446744073709551516 = Some (Inr (moved_back m, 4144))"
  by (simp add: run_defs fresh_heap_def moved_back_def field_defs mem_simps)

lemma malloc_negative_cursor:
  "malloc 4096 (fresh_heap m) 9223372036854775813 = Some (Inr (negative_cursor m, 4144))"
  by (simp add: run_defs fresh_heap_def negative_cursor_def field_defs mem_simps)

lemma negative_cursor_padding:
  "sint (free_addr (negative_cursor m)) < 0 \<and>
   align_up (free_addr (negative_cursor m)) = free_addr (negative_cursor m) + 27"
  by (simp add: negative_cursor_def align_up_def c_rem_def signed_modulo_int_def)

text \<open>
  C10 says that every call that takes the bump path first moves the cursor up to the next
  multiple of 16, by 1 to 16 bytes, and that the cursor strictly increases on every such
  call. The function's own comments say that a request for which there is not enough
  space returns \<open>NULL\<close>. The code does not keep this: the new cursor, block address plus
  size, is computed modulo \<open>2^64\<close> and compared with \<open>end_addr\<close> as a signed value, and
  nothing tests whether the sum wrapped. On the empty heap at 4096 (the state after a first
  \<open>malloc(0)\<close>), \<open>malloc(2^64 - 100)\<close> takes the bump path and puts its header at 4112
  and its block at 4144; \<open>4144 + 2^64 - 100\<close> wraps to 4044, which is not above
  \<open>end_addr\<close>, so the call returns 4144 and leaves the cursor at 4044, below the 4096 it
  started from. On the same heap \<open>malloc(2^63 + 5)\<close> is granted too and leaves the cursor
  at \<open>2^63 + 4149\<close>, which is negative as an \<open>intptr_t\<close>; there the remainder
  \<open>free_addr % 16\<close> is -11 and the padding of the next bump-path call is 27 bytes.
\<close>

theorem bump_cursor_wraps:
  "\<exists>s0 s1 s2.
      malloc 4096 (initial_state m) 0 = Some (Inr (s0, 0)) \<and>
      free_list_head s0 = 0 \<and> free_addr s0 = 4096 \<and>
      malloc 4096 s0 18446744073709551516 = Some (Inr (s1, 4144)) \<and>
      free_addr s1 = 4044 \<and> sint (free_addr s1) < sint (free_addr s0) \<and>
      malloc 4096 s0 9223372036854775813 = Some (Inr (s2, 4144)) \<and>
      sint (free_addr s2) < 0 \<and> align_up (free_addr s2) = free_addr s2 + 27"
proof -
  have "free_list_head (fresh_heap m) = 0" "free_addr (fresh_heap m) = 4096"
    "free_addr (moved_back m) = 4044"
    by (simp_all add: fresh_heap_def moved_back_def)
  then show ?thesis
    using malloc_zero_first_use [of m] malloc_moves_back [of m] malloc_negative_cursor [of m]
      negative_cursor_padding [of m]
    by simp
qed


subsection \<open>Releasing\<close>

lemma free_clears_flag:
  "ptr \<noteq> 0 \<Longrightarrow> free s ptr = Inr s' \<Longrightarrow> \<not> hdr_allocated (mem s') (BLOCK_TO_HEADER ptr)"
  by (auto simp: free_def Let_def hdr_allocated_set_allocated split: if_splits)

text \<open>
  C4. \<open>free(NULL)\<close> changes nothing. \<open>free(ptr)\<close> for a non-null \<open>ptr\<close> whose
  header is not marked allocated ends in the fatal double-free error, with the header's
  address as payload, and no state is returned. In particular, after a \<open>free(ptr)\<close> that
  returned, a second \<open>free(ptr)\<close> is that fatal error.
\<close>

theorem free_double_release:
  "free s 0 = Inr s \<and>
   (ptr \<noteq> 0 \<and> \<not> hdr_allocated (mem s) (BLOCK_TO_HEADER ptr) \<longrightarrow>
      free s ptr = Inl (DoubleFree (BLOCK_TO_HEADER ptr))) \<and>
   (ptr \<noteq> 0 \<and> free s ptr = Inr s' \<longrightarrow>
      free s' ptr = Inl (DoubleFree (BLOCK_TO_HEADER ptr)))"
proof (intro conjI impI)
  show "free s 0 = Inr s" by (simp add: free_def)
next
  assume "ptr \<noteq> 0 \<and> \<not> hdr_allocated (mem s) (BLOCK_TO_HEADER ptr)"
  then show "free s ptr = Inl (DoubleFree (BLOCK_TO_HEADER ptr))"
    by (simp add: free_def)
next
  assume a: "ptr \<noteq> 0 \<and> free s ptr = Inr s'"
  then have "\<not> hdr_allocated (mem s') (BLOCK_TO_HEADER ptr)"
    using free_clears_flag by blast
  then show "free s' ptr = Inl (DoubleFree (BLOCK_TO_HEADER ptr))"
    using a by (simp add: free_def)
qed

lemma free_one_block:
  "\<exists>s'. free (one_block m) 4144 = Inr s'"
  by (simp add: free_def Let_def one_block_def BLOCK_TO_HEADER_def sizeof_header_def field_defs mem_simps)

theorem free_double_release_witness:
  "free (initial_state (\<lambda>_. 0)) 4144 = Inl (DoubleFree 4112) \<and>
   (\<exists>s'. free (one_block (\<lambda>_. 0)) 4144 = Inr s' \<and> free s' 4144 = Inl (DoubleFree 4112))"
proof -
  obtain s' where f: "free (one_block (\<lambda>_. 0)) 4144 = Inr s'"
    using free_one_block by blast
  have h: "\<not> hdr_allocated (mem (initial_state (\<lambda>_. 0))) (BLOCK_TO_HEADER 4144)"
    by (simp add: initial_state_def hdr_allocated_def)
  have b: "BLOCK_TO_HEADER 4144 = 4112"
    by (simp add: BLOCK_TO_HEADER_def sizeof_header_def)
  have "free (initial_state (\<lambda>_. 0)) 4144 = Inl (DoubleFree 4112)"
    using free_double_release [of "initial_state (\<lambda>_. 0)" 4144] h b by simp
  moreover have "free s' 4144 = Inl (DoubleFree 4112)"
    using free_double_release [of "one_block (\<lambda>_. 0)" 4144 s'] f b by simp
  ultimately show ?thesis using f by blast
qed

subsection \<open>The lists after a failed request\<close>

text \<open>
  C5 says that after every operation each header is on exactly one list, that its
  \<open>allocated\<close> flag says which, and that \<open>next\<close> and \<open>prev\<close> mirror each other. The
  code does not keep this. From the initial state, with the region at 4096,
  \<open>malloc\<close> of 3 GiB fails and returns \<open>NULL\<close>, leaving its header at 4112 on the
  allocated list and the cursor at 4112. The next call, \<open>malloc(1)\<close>, pads the cursor
  to 4128 and writes its header there, over the second half of the first header: its
  \<open>next\<close> field lies on the first header's \<open>size\<close>, its \<open>prev\<close> field on the first
  header's \<open>allocated\<close> byte. Afterwards the allocated list is 4128, 4112, and the header
  at 4112, which is on it, has \<open>allocated\<close> false and the size 4112 instead of 3 GiB.
\<close>

theorem phantom_header_overlap:
  "\<exists>s1 s2. malloc 4096 (initial_state m) (3 * 1024 * 1024 * 1024) = Some (Inr (s1, 0)) \<and>
           malloc 4096 s1 1 = Some (Inr (s2, 4160)) \<and>
           path (mem s2) (allocated_list_head s2) [4128, 4112] 0 \<and>
           \<not> hdr_allocated (mem s2) 4112 \<and>
           hdr_size (mem s2) 4112 \<noteq> 3 * 1024 * 1024 * 1024"
proof -
  have "path (mem (overlapped m)) (allocated_list_head (overlapped m)) [4128, 4112] 0"
    using overlapped_list [of m] by (simp add: overlapped_def)
  then show ?thesis
    using malloc_too_large_first [of m] malloc_after_failure [of m] overlapped_flag [of m]
      overlapped_size [of m]
    by auto
qed

subsection \<open>Zeroed allocation\<close>






subsection \<open>Resizing\<close>

text \<open>
  C6. \<open>realloc(ptr, sz)\<close> with \<open>ptr\<close> not null, \<open>sz\<close> not zero and \<open>sz\<close> at most
  the size recorded in the header of \<open>ptr\<close> returns \<open>ptr\<close> and the state it was
  called in: no field of a header, no list and no global changes.
\<close>

theorem realloc_no_growth:
  assumes "ptr \<noteq> 0" and "sz \<noteq> 0" and "sz \<le> hdr_size (mem s) (BLOCK_TO_HEADER ptr)"
  shows "realloc heap s ptr sz = Some (Inr (s, ptr))"
  using assms by (simp add: realloc_def)

theorem realloc_no_growth_witness:
  "hdr_size (mem (one_block (\<lambda>_. 0))) (BLOCK_TO_HEADER 4144) = 24 \<and>
   realloc 4096 (one_block (\<lambda>_. 0)) 4144 20 = Some (Inr (one_block (\<lambda>_. 0), 4144))"
proof -
  have h: "hdr_size (mem (one_block (\<lambda>_. 0))) (BLOCK_TO_HEADER 4144) = 24"
    by (simp add: one_block_def BLOCK_TO_HEADER_def sizeof_header_def hdr_size_set)
  then have "(20::64 word) \<le> hdr_size (mem (one_block (\<lambda>_. 0))) (BLOCK_TO_HEADER 4144)"
    by simp
  from realloc_no_growth [OF _ _ this, of 4096] h show ?thesis by simp
qed


subsection \<open>Resizing that fails\<close>

lemma malloc_wraps_back:
  "malloc 4096 (one_block m) 18446744073709551536 = Some (Inr (wrapped_back m, 4208))"
  by (simp add: run_defs one_block_def wrapped_back_def field_defs mem_simps)

lemma wrapped_back_4112:
  "hdr_size (mem (wrapped_back m)) 4112 = 24"
  by (simp add: wrapped_back_def one_block_def field_defs mem_simps)

lemma malloc_over_block:
  "malloc 4096 (wrapped_back m) (3 * 1024 * 1024 * 1024) = Some (Inr (overwritten m, 0))"
  by (simp add: run_defs wrapped_back_def overwritten_def one_block_def field_defs mem_simps)

lemma realloc_over_block:
  "realloc 4096 (wrapped_back m) 4144 (3 * 1024 * 1024 * 1024) = Some (Inr (overwritten m, 0))"
  using wrapped_back_4112 [of m] malloc_over_block [of m]
  by (simp add: realloc_def Let_def BLOCK_TO_HEADER_def sizeof_header_def)

lemma block_bytes:
  "mem (one_block (\<lambda>_. 7)) 4144 = 7 \<and> mem (wrapped_back (\<lambda>_. 7)) 4144 = 7 \<and>
   mem (overwritten (\<lambda>_. 7)) 4144 = 80"
  by (simp add: overwritten_def wrapped_back_def one_block_def field_defs store64_def byte_at_def)


text \<open>
  C7 says that when \<open>realloc\<close> has to grow a block and its call of \<open>malloc\<close> fails, it
  returns \<open>NULL\<close> and the old block is as it was: still allocated, the same size, the
  same contents. \<open>realloc\<close> itself does nothing to the old block in that case, but the
  failing \<open>malloc\<close> writes a header at the padded cursor before it finds that there is no
  space, and the cursor can lie below blocks that are in use, because a request whose
  block address plus size wraps around \<open>2^64\<close> is granted and sets the cursor to the
  wrapped sum. From the initial state, with the region at 4096 and every byte of memory 7:
  \<open>malloc(24)\<close> returns 4144; \<open>malloc(2^64 - 80)\<close> returns 4208 and leaves the cursor at
  \<open>4208 + 2^64 - 80\<close>, which is 4128; \<open>realloc(4144, 3 GiB)\<close> finds the block of 24
  bytes too small and calls \<open>malloc\<close>, which pads the cursor to 4144, writes its header
  there, on the block, and fails. \<open>realloc\<close> returns \<open>NULL\<close>, and the first byte of the
  old block, which is still allocated with size 24, is 80 (the low byte of the header's
  \<open>next\<close> pointer, 4176) and no longer 7.
\<close>

theorem realloc_failure_overwrites_block:
  "\<exists>s1 s2 s3.
      malloc 4096 (initial_state (\<lambda>_. 7)) 24 = Some (Inr (s1, 4144)) \<and> mem s1 4144 = 7 \<and>
      malloc 4096 s1 18446744073709551536 = Some (Inr (s2, 4208)) \<and>
      free_addr s2 = 4128 \<and> mem s2 4144 = 7 \<and>
      hdr_size (mem s2) (BLOCK_TO_HEADER 4144) = 24 \<and>
      realloc 4096 s2 4144 (3 * 1024 * 1024 * 1024) = Some (Inr (s3, 0)) \<and>
      mem s3 4144 = 80"
proof -
  have "free_addr (wrapped_back (\<lambda>_. 7)) = 4128" by (simp add: wrapped_back_def)
  moreover have "BLOCK_TO_HEADER 4144 = 4112"
    by (simp add: BLOCK_TO_HEADER_def sizeof_header_def)
  ultimately show ?thesis
    using malloc_first_use [of "\<lambda>_. 7"] malloc_wraps_back [of "\<lambda>_. 7"]
      wrapped_back_4112 [of "\<lambda>_. 7"] realloc_over_block [of "\<lambda>_. 7"] block_bytes
    by simp
qed


subsection \<open>Header and block addresses\<close>

text \<open>
  C9. For every pointer (so for each one that \<open>malloc\<close>, \<open>calloc\<close> or \<open>realloc\<close>
  returns), going to the header by subtracting the header size and back to the block by
  adding it gives the pointer again, and the same holds the other way round from a header:
  the two conversions are inverse to each other.
\<close>

theorem header_block_roundtrip:
  "HEADER_TO_BLOCK (BLOCK_TO_HEADER p) = p \<and> BLOCK_TO_HEADER (HEADER_TO_BLOCK h) = h"
  by (simp add: HEADER_TO_BLOCK_def BLOCK_TO_HEADER_def)

end
